theory Spec2Isabelle
  imports Main
begin

section \<open>The HyperCat catalogue of hypercat.go\<close>

text \<open>
  A shallow embedding of \<^verbatim>\<open>hypercat.go\<close>. Go strings are byte sequences and become
  \<^typ>\<open>string\<close>; a slice becomes a list (a nil slice and an empty slice are both the empty
  list); a method with a pointer receiver takes the catalogue and returns the catalogue it
  leaves behind; a Go \<^verbatim>\<open>error\<close> result becomes an \<open>error option\<close>, \<open>None\<close> for
  \<^verbatim>\<open>nil\<close>. The catalogues considered do not share backing arrays with each other.
\<close>

subsection \<open>Constants and types\<close>

definition DescriptionRel :: string where
  "DescriptionRel = ''urn:X-hypercat:rels:hasDescription:en''"

text \<open>
  The declarations of \<^verbatim>\<open>Rel\<close> and \<^verbatim>\<open>Metadata\<close> are read off their uses in
  \<^verbatim>\<open>hypercat.go\<close>: \<^verbatim>\<open>Rel{Rel: rel, Val: val}\<close>, \<^verbatim>\<open>relationship.Rel == rel\<close>,
  \<^verbatim>\<open>rel.Val\<close>, \<^verbatim>\<open>append(h.Metadata, Rel{...})\<close>.
\<close>

record Rel =
  Rel :: string
  Val :: string

type_synonym Metadata = "Rel list"

text \<open>
  Modelled from the spec: the declaration of \<^verbatim>\<open>Item\<close> is not in \<^verbatim>\<open>hypercat.go\<close>, which
  reads only \<^verbatim>\<open>item.Href\<close>. Section 3 gives an item its href, its description and its
  relation store, the same shape as the catalogue's.
\<close>

record Item =
  Href :: string
  Metadata :: Metadata
  Description :: string

type_synonym Items = "Item list"

text \<open>The local struct \<^verbatim>\<open>tempCat\<close> of \<^verbatim>\<open>UnmarshalJSON\<close>.\<close>

record tempCat =
  Items :: Items
  Metadata :: Metadata

record HyperCat =
  Items :: Items
  Metadata :: Metadata
  Description :: string

text \<open>
  The four places that call \<^verbatim>\<open>errors.New\<close>, and the error of the JSON library. The
  first two carry the href that the message quotes.
\<close>

datatype error =
    DuplicateHref string
  | ItemNotFound string
  | MissingDescription
  | MalformedInput

subsection \<open>Constructor and relation operations\<close>

definition NewHyperCat :: "string \<Rightarrow> HyperCat" where
  "NewHyperCat description =
     \<lparr>Items = [], Metadata = [], Description = description\<rparr>"

definition AddRel :: "string \<Rightarrow> string \<Rightarrow> HyperCat \<Rightarrow> HyperCat" where
  "AddRel rel val h = h\<lparr>Metadata := Metadata h @ [\<lparr>Rel = rel, Val = val\<rparr>]\<rparr>"

text \<open>
  \<^verbatim>\<open>for i, relationship := range h.Metadata\<close>: the index runs over the length the slice
  has when the loop starts, the element is read when its turn comes, and a match is
  overwritten in place.
\<close>

function ReplaceRel_from :: "nat \<Rightarrow> string \<Rightarrow> string \<Rightarrow> Metadata \<Rightarrow> Metadata" where
  "ReplaceRel_from i rel val metadata =
     (if i < length metadata
      then ReplaceRel_from (Suc i) rel val
             (if Rel (metadata ! i) = rel
              then metadata[i := \<lparr>Rel = rel, Val = val\<rparr>]
              else metadata)
      else metadata)"
  by pat_completeness auto
termination
  by (relation "measure (\<lambda>(i, rel, val, metadata). length metadata - i)") auto

declare ReplaceRel_from.simps [simp del]

definition ReplaceRel :: "string \<Rightarrow> string \<Rightarrow> HyperCat \<Rightarrow> HyperCat" where
  "ReplaceRel rel val h = h\<lparr>Metadata := ReplaceRel_from 0 rel val (Metadata h)\<rparr>"

text \<open>\<^verbatim>\<open>Rels\<close>: a slice of the store's length, filled index by index.\<close>

fun Rels_loop :: "Metadata \<Rightarrow> nat \<Rightarrow> string list \<Rightarrow> string list" where
  "Rels_loop [] i rels = rels"
| "Rels_loop (rel # rest) i rels = Rels_loop rest (Suc i) (rels[i := Rel rel])"

definition Rels :: "HyperCat \<Rightarrow> string list" where
  "Rels h = Rels_loop (Metadata h) 0 (replicate (length (Metadata h)) [])"

text \<open>\<^verbatim>\<open>Vals\<close>: the values of the matching entries, appended as the scan meets them.\<close>

fun Vals_loop :: "string \<Rightarrow> Metadata \<Rightarrow> string list \<Rightarrow> string list" where
  "Vals_loop key [] vals = vals"
| "Vals_loop key (rel # rest) vals =
     Vals_loop key rest (if Rel rel = key then vals @ [Val rel] else vals)"

definition Vals :: "string \<Rightarrow> HyperCat \<Rightarrow> string list" where
  "Vals key h = Vals_loop key (Metadata h) []"

subsection \<open>Item operations\<close>

text \<open>\<^verbatim>\<open>AddItem\<close>: the loop returns the error at the first item with the same href.\<close>

fun AddItem_loop :: "Item \<Rightarrow> Items \<Rightarrow> error option" where
  "AddItem_loop item [] = None"
| "AddItem_loop item (i # rest) =
     (if Href item = Href i then Some (DuplicateHref (Href item))
      else AddItem_loop item rest)"

definition AddItem :: "Item \<Rightarrow> HyperCat \<Rightarrow> HyperCat \<times> error option" where
  "AddItem item h =
     (case AddItem_loop item (Items h) of
        Some err \<Rightarrow> (h, Some err)
      | None \<Rightarrow> (h\<lparr>Items := Items h @ [item]\<rparr>, None))"

text \<open>
  \<^verbatim>\<open>ReplaceItem\<close>: the loop writes at the first index whose item has the new item's
  href and returns; after the loop the error is returned.
\<close>

function ReplaceItem_from :: "nat \<Rightarrow> Item \<Rightarrow> HyperCat \<Rightarrow> HyperCat \<times> error option" where
  "ReplaceItem_from index newItem h =
     (if index < length (Items h)
      then (if Href newItem = Href (Items h ! index)
            then (h\<lparr>Items := (Items h)[index := newItem]\<rparr>, None)
            else ReplaceItem_from (Suc index) newItem h)
      else (h, Some (ItemNotFound (Href newItem))))"
  by pat_completeness auto
termination
  by (relation "measure (\<lambda>(index, newItem, h). length (Items h) - index)") auto

declare ReplaceItem_from.simps [simp del]

definition ReplaceItem :: "Item \<Rightarrow> HyperCat \<Rightarrow> HyperCat \<times> error option" where
  "ReplaceItem newItem h = ReplaceItem_from 0 newItem h"

subsection \<open>The wire document\<close>

text \<open>
  \<^verbatim>\<open>encoding/json\<close> is not part of the repository. A text handed to \<^verbatim>\<open>json.Unmarshal\<close>
  is either rejected by the library (it is not JSON, or it does not have the shape of the
  target struct) or it is a document: the item objects under \<^verbatim>\<open>items\<close>, each with its
  \<^verbatim>\<open>href\<close> and its \<^verbatim>\<open>item-metadata\<close> array, and the catalogue's own \<^verbatim>\<open>item-metadata\<close>
  array. An absent array is the empty one. A document holds its strings as the library
  delivers them to the decoder, and the text that \<^verbatim>\<open>json.Marshal\<close> writes is identified
  with the document that the library reads back from it.
\<close>

record wire_item =
  wire_href :: string
  wire_item_metadata :: Metadata

record wire_cat =
  wire_items :: "wire_item list"
  wire_metadata :: Metadata

datatype json = Malformed | Document wire_cat

subsection \<open>Strings as the JSON library writes them\<close>

text \<open>
  \<^verbatim>\<open>json.Marshal\<close> walks a string with \<^verbatim>\<open>utf8.DecodeRuneInString\<close>. The escapes it writes
  for ASCII and for valid encodings are read back as the bytes they stand for; a byte at
  which no valid encoding starts is written as the escape of U+FFFD and is read back as
  the three bytes EF BF BD.
\<close>

definition byte :: "char \<Rightarrow> nat" where
  "byte c = of_char c"

definition accept :: "nat \<Rightarrow> nat \<Rightarrow> char \<Rightarrow> bool" where
  "accept lo hi c = (lo \<le> byte c \<and> byte c \<le> hi)"

text \<open>
  The size that \<^verbatim>\<open>utf8.DecodeRuneInString\<close> reports for the encoding at the head of the
  string, with the library's table of first bytes and accept ranges; \<open>None\<close> where it
  reports \<^verbatim>\<open>RuneError\<close> with size one (the encoder never asks at the empty string).
\<close>

fun DecodeRune_size :: "string \<Rightarrow> nat option" where
  "DecodeRune_size [] = None"
| "DecodeRune_size (s0 # rest) =
     (if byte s0 < 0x80 then Some 1
      else if byte s0 < 0xC2 \<or> 0xF4 < byte s0 then None
      else if byte s0 < 0xE0 then
        (case rest of
           s1 # _ \<Rightarrow> if accept 0x80 0xBF s1 then Some 2 else None
         | _ \<Rightarrow> None)
      else if byte s0 < 0xF0 then
        (case rest of
           s1 # s2 # _ \<Rightarrow>
             if accept (if byte s0 = 0xE0 then 0xA0 else 0x80)
                       (if byte s0 = 0xED then 0x9F else 0xBF) s1
                \<and> accept 0x80 0xBF s2
             then Some 3 else None
         | _ \<Rightarrow> None)
      else
        (case rest of
           s1 # s2 # s3 # _ \<Rightarrow>
             if accept (if byte s0 = 0xF0 then 0x90 else 0x80)
                       (if byte s0 = 0xF4 then 0x8F else 0xBF) s1
                \<and> accept 0x80 0xBF s2 \<and> accept 0x80 0xBF s3
             then Some 4 else None
         | _ \<Rightarrow> None))"

text \<open>A string as it comes back from the text that the library writes for it.\<close>

function json_string :: "string \<Rightarrow> string" where
  "json_string src =
     (if src = [] then []
      else case DecodeRune_size src of
             None \<Rightarrow> [CHR 0xEF, CHR 0xBF, CHR 0xBD] @ json_string (drop 1 src)
           | Some n \<Rightarrow> take n src @ json_string (drop n src))"
  by pat_completeness auto
termination
proof (relation "measure length")
  show "wf (measure length)" by simp
next
  fix src :: string
  assume "src \<noteq> []"
  then show "(drop 1 src, src) \<in> measure length" by simp
next
  fix src :: string and n :: nat
  assume ne: "src \<noteq> []" and dec: "DecodeRune_size src = Some n"
  from ne obtain s0 rest where src: "src = s0 # rest" by (cases src) auto
  have "0 < n"
    using dec unfolding src by (auto split: if_splits list.splits)
  with ne show "(drop n src, src) \<in> measure length" by simp
qed

declare json_string.simps [simp del]

text \<open>\<^verbatim>\<open>utf8.ValidString\<close>: every byte belongs to a valid encoding.\<close>

function valid_utf8 :: "string \<Rightarrow> bool" where
  "valid_utf8 src =
     (if src = [] then True
      else case DecodeRune_size src of
             None \<Rightarrow> False
           | Some n \<Rightarrow> valid_utf8 (drop n src))"
  by pat_completeness auto
termination
proof (relation "measure length")
  show "wf (measure length)" by simp
next
  fix src :: string and n :: nat
  assume ne: "src \<noteq> []" and dec: "DecodeRune_size src = Some n"
  from ne obtain s0 rest where src: "src = s0 # rest" by (cases src) auto
  have "0 < n"
    using dec unfolding src by (auto split: if_splits list.splits)
  with ne show "(drop n src, src) \<in> measure length" by simp
qed

declare valid_utf8.simps [simp del]

text \<open>A relation object as written: the library writes both of its strings.\<close>

definition json_Marshal_Rel :: "Rel \<Rightarrow> Rel" where
  "json_Marshal_Rel r = \<lparr>Rel = json_string (Rel r), Val = json_string (Val r)\<rparr>"

definition valid_utf8_Rel :: "Rel \<Rightarrow> bool" where
  "valid_utf8_Rel r = (valid_utf8 (Rel r) \<and> valid_utf8 (Val r))"

subsection \<open>The codec of an item\<close>

text \<open>
  Modelled from the spec: the methods \<^verbatim>\<open>MarshalJSON\<close> and \<^verbatim>\<open>UnmarshalJSON\<close> of
  \<^verbatim>\<open>Item\<close> are not in \<^verbatim>\<open>hypercat.go\<close>. Section 4.4: the encode algorithm is applied
  to each contained item, the store first and one description relation appended when the
  description is non-empty, with the href as an attribute of its own; the strings are
  written by the library as every string is.
\<close>

definition Item_MarshalJSON :: "Item \<Rightarrow> wire_item" where
  "Item_MarshalJSON item =
     \<lparr>wire_href = json_string (Href item),
      wire_item_metadata =
        map json_Marshal_Rel
          (if Item.Description item \<noteq> []
           then Item.Metadata item @ [\<lparr>Rel = DescriptionRel, Val = Item.Description item\<rparr>]
           else Item.Metadata item)\<rparr>"

text \<open>
  Modelled from the spec: the scan of step 2 of the decode algorithm of section 4.4,
  which applies identically to each item: a description entry sets the description, any
  other entry is appended to the store.
\<close>

fun Item_UnmarshalJSON_loop :: "Metadata \<Rightarrow> Item \<Rightarrow> Item" where
  "Item_UnmarshalJSON_loop [] item = item"
| "Item_UnmarshalJSON_loop (rel # rest) item =
     Item_UnmarshalJSON_loop rest
       (if Rel rel = DescriptionRel
        then item\<lparr>Item.Description := Val rel\<rparr>
        else item\<lparr>Item.Metadata := Item.Metadata item @ [rel]\<rparr>)"

text \<open>
  Modelled from the spec: steps 2 to 4 of the decode algorithm of section 4.4 for one
  item object, the item's \<^verbatim>\<open>UnmarshalJSON\<close>, which is not in \<^verbatim>\<open>hypercat.go\<close>: the href
  is taken from the object, where the spec requires it and names no error for it, the
  metadata array is scanned, and an empty description afterwards is the
  MissingDescription error.
\<close>

definition Item_UnmarshalJSON :: "wire_item \<Rightarrow> Item \<Rightarrow> Item \<times> error option" where
  "Item_UnmarshalJSON w item =
     (let item' = Item_UnmarshalJSON_loop (wire_item_metadata w) (item\<lparr>Href := wire_href w\<rparr>)
      in if Item.Description item' = [] then (item', Some MissingDescription)
         else (item', None))"

subsection \<open>The codec of the catalogue\<close>

text \<open>
  \<^verbatim>\<open>json.Unmarshal(b, &t)\<close> into the \<^verbatim>\<open>tempCat\<close>: the library decodes every item object
  into a fresh \<^verbatim>\<open>Item\<close> through the item's decoder and reports the first error.
\<close>

fun decode_items :: "wire_item list \<Rightarrow> error + Items" where
  "decode_items [] = Inr []"
| "decode_items (w # ws) =
     (case Item_UnmarshalJSON w \<lparr>Href = [], Item.Metadata = [], Item.Description = []\<rparr> of
        (item, Some err) \<Rightarrow> Inl err
      | (item, None) \<Rightarrow>
          (case decode_items ws of
             Inl err \<Rightarrow> Inl err
           | Inr items \<Rightarrow> Inr (item # items)))"

definition json_Unmarshal :: "json \<Rightarrow> error + tempCat" where
  "json_Unmarshal b =
     (case b of
        Malformed \<Rightarrow> Inl MalformedInput
      | Document w \<Rightarrow>
          (case decode_items (wire_items w) of
             Inl err \<Rightarrow> Inl err
           | Inr items \<Rightarrow>
               Inr \<lparr>tempCat.Items = items, tempCat.Metadata = wire_metadata w\<rparr>))"

text \<open>The loop of \<^verbatim>\<open>UnmarshalJSON\<close> over \<^verbatim>\<open>t.Metadata\<close>.\<close>

fun UnmarshalJSON_loop :: "Metadata \<Rightarrow> HyperCat \<Rightarrow> HyperCat" where
  "UnmarshalJSON_loop [] h = h"
| "UnmarshalJSON_loop (rel # rest) h =
     UnmarshalJSON_loop rest
       (if Rel rel = DescriptionRel
        then h\<lparr>Description := Val rel\<rparr>
        else h\<lparr>Metadata := Metadata h @ [rel]\<rparr>)"

text \<open>
  \<^verbatim>\<open>UnmarshalJSON\<close> returns the receiver as it leaves it, also when it returns an error.
  The items of \<^verbatim>\<open>t\<close> are decoded and then not used: nothing assigns \<^verbatim>\<open>h.Items\<close>.
\<close>

definition UnmarshalJSON :: "json \<Rightarrow> HyperCat \<Rightarrow> HyperCat \<times> error option" where
  "UnmarshalJSON b h =
     (case json_Unmarshal b of
        Inl err \<Rightarrow> (h, Some err)
      | Inr t \<Rightarrow>
          (let h' = UnmarshalJSON_loop (tempCat.Metadata t) h
           in if Description h' = [] then (h', Some MissingDescription)
              else (h', None)))"

text \<open>\<^verbatim>\<open>Parse\<close> decodes into a zero catalogue and returns \<^verbatim>\<open>nil\<close> with the error.\<close>

definition Parse :: "json \<Rightarrow> HyperCat option \<times> error option" where
  "Parse str =
     (case UnmarshalJSON str \<lparr>Items = [], Metadata = [], Description = []\<rparr> of
        (cat, Some err) \<Rightarrow> (None, Some err)
      | (cat, None) \<Rightarrow> (Some cat, None))"

text \<open>
  \<^verbatim>\<open>MarshalJSON\<close>: the library cannot fail on strings and slices of structs, so the error
  is always \<^verbatim>\<open>nil\<close>. The items are encoded by the item's encoder, and every string of
  the metadata array is written by the library.
\<close>

definition MarshalJSON :: "HyperCat \<Rightarrow> json \<times> error option" where
  "MarshalJSON h =
     (let metadata = Metadata h;
          metadata = (if Description h \<noteq> []
                      then metadata @ [\<lparr>Rel = DescriptionRel, Val = Description h\<rparr>]
                      else metadata)
      in (Document \<lparr>wire_items = map Item_MarshalJSON (Items h),
                    wire_metadata = map json_Marshal_Rel metadata\<rparr>, None))"

subsection \<open>Sequences of public operations\<close>

text \<open>
  What a caller can do to a catalogue it holds: the four mutators, and decoding a text
  into it (\<^verbatim>\<open>json.Unmarshal(blob, &cat)\<close>). The error results are dropped, the
  catalogue is what the call leaves behind.
\<close>

datatype operation =
    OpAddRel string string
  | OpReplaceRel string string
  | OpAddItem Item
  | OpReplaceItem Item
  | OpDecode json

fun apply_operation :: "operation \<Rightarrow> HyperCat \<Rightarrow> HyperCat" where
  "apply_operation (OpAddRel rel val) h = AddRel rel val h"
| "apply_operation (OpReplaceRel rel val) h = ReplaceRel rel val h"
| "apply_operation (OpAddItem item) h = fst (AddItem item h)"
| "apply_operation (OpReplaceItem newItem) h = fst (ReplaceItem newItem h)"
| "apply_operation (OpDecode b) h = fst (UnmarshalJSON b h)"

fun apply_operations :: "operation list \<Rightarrow> HyperCat \<Rightarrow> HyperCat" where
  "apply_operations [] h = h"
| "apply_operations (c # cs) h = apply_operations cs (apply_operation c h)"

text \<open>An \<^verbatim>\<open>AddRel\<close> whose key is the reserved description key.\<close>

fun adds_description_key :: "operation \<Rightarrow> bool" where
  "adds_description_key (OpAddRel rel val) = (rel = DescriptionRel)"
| "adds_description_key (OpReplaceRel rel val) = False"
| "adds_description_key (OpAddItem item) = False"
| "adds_description_key (OpReplaceItem newItem) = False"
| "adds_description_key (OpDecode b) = False"

text \<open>The mutators only, every item handed over having a non-empty description.\<close>

fun builder_operation :: "operation \<Rightarrow> bool" where
  "builder_operation (OpAddRel rel val) = True"
| "builder_operation (OpReplaceRel rel val) = True"
| "builder_operation (OpAddItem item) = (Item.Description item \<noteq> [])"
| "builder_operation (OpReplaceItem newItem) = (Item.Description newItem \<noteq> [])"
| "builder_operation (OpDecode b) = False"

definition store_without_description :: "HyperCat \<Rightarrow> bool" where
  "store_without_description h = (DescriptionRel \<notin> set (Rels h))"

section \<open>What the loops compute\<close>

subsection \<open>Strings\<close>

lemma DecodeRune_size_pos: "DecodeRune_size src = Some n \<Longrightarrow> 0 < n"
  by (cases src) (auto split: if_splits list.splits)

lemma json_string_valid: "valid_utf8 src \<Longrightarrow> json_string src = src"
proof (induction src rule: json_string.induct)
  case (1 src)
  show ?case
  proof (cases "src = []")
    case True
    then show ?thesis by (simp add: json_string.simps)
  next
    case False
    with "1.prems" obtain n where dec: "DecodeRune_size src = Some n"
      and rest: "valid_utf8 (drop n src)"
      by (subst (asm) valid_utf8.simps) (auto split: option.splits)
    from "1.IH"(2) [OF False dec rest] show ?thesis
      using False dec by (subst json_string.simps) simp
  qed
qed

lemma valid_utf8_ascii: "\<forall>c \<in> set src. byte c < 0x80 \<Longrightarrow> valid_utf8 src"
proof (induction src)
  case Nil
  then show ?case by (simp add: valid_utf8.simps)
next
  case (Cons c cs)
  then have "DecodeRune_size (c # cs) = Some 1" by simp
  with Cons show ?case by (subst valid_utf8.simps) simp
qed

lemma json_string_Nil_iff: "json_string src = [] \<longleftrightarrow> src = []"
proof (cases "src = []")
  case True
  then show ?thesis by (simp add: json_string.simps)
next
  case False
  then show ?thesis
    by (subst json_string.simps) (auto split: option.splits dest: DecodeRune_size_pos)
qed

lemma valid_utf8_DescriptionRel: "valid_utf8 DescriptionRel"
  by (rule valid_utf8_ascii) (simp add: DescriptionRel_def byte_def)

lemma json_string_DescriptionRel: "json_string DescriptionRel = DescriptionRel"
  using valid_utf8_DescriptionRel by (rule json_string_valid)

lemma json_Marshal_Rel_valid: "valid_utf8_Rel r \<Longrightarrow> json_Marshal_Rel r = r"
  by (simp add: valid_utf8_Rel_def json_Marshal_Rel_def json_string_valid)

lemma json_Marshal_Metadata_valid:
  "\<forall>r \<in> set m. valid_utf8_Rel r \<Longrightarrow> map json_Marshal_Rel m = m"
  by (intro map_idI) (simp add: json_Marshal_Rel_valid)

subsection \<open>The relation store\<close>

lemma ReplaceRel_from_eq:
  "ReplaceRel_from i rel val metadata =
     take i metadata @
     map (\<lambda>r. if Rel r = rel then \<lparr>Rel = rel, Val = val\<rparr> else r) (drop i metadata)"
proof (induction i rel val metadata rule: ReplaceRel_from.induct)
  case (1 i rel val metadata)
  show ?case
  proof (cases "i < length metadata")
    case False
    then show ?thesis by (subst ReplaceRel_from.simps) simp
  next
    case True
    let ?f = "\<lambda>r. if Rel r = rel then \<lparr>Rel = rel, Val = val\<rparr> else r"
    let ?m = "if Rel (metadata ! i) = rel then metadata[i := \<lparr>Rel = rel, Val = val\<rparr>] else metadata"
    have step: "ReplaceRel_from i rel val metadata = ReplaceRel_from (Suc i) rel val ?m"
      using True by (subst ReplaceRel_from.simps) simp
    have ih: "ReplaceRel_from (Suc i) rel val ?m = take (Suc i) ?m @ map ?f (drop (Suc i) ?m)"
      using "1.IH" [OF True] .
    have m: "?m = metadata[i := ?f (metadata ! i)]"
      by simp
    have t: "take (Suc i) ?m = take i metadata @ [?f (metadata ! i)]"
      using True unfolding m by (simp add: take_Suc_conv_app_nth)
    have d: "drop (Suc i) ?m = drop (Suc i) metadata"
      unfolding m by simp
    have "drop i metadata = metadata ! i # drop (Suc i) metadata"
      using True by (simp add: Cons_nth_drop_Suc)
    then show ?thesis
      unfolding step ih t d by simp
  qed
qed

lemma ReplaceRel_Metadata:
  "Metadata (ReplaceRel rel val h) =
     map (\<lambda>r. if Rel r = rel then \<lparr>Rel = rel, Val = val\<rparr> else r) (Metadata h)"
  by (simp add: ReplaceRel_def ReplaceRel_from_eq)

lemma ReplaceRel_keys: "map Rel (Metadata (ReplaceRel rel val h)) = map Rel (Metadata h)"
  by (simp add: ReplaceRel_Metadata comp_def if_distrib cong: if_cong)

lemma Vals_loop_eq:
  "Vals_loop key metadata vals = vals @ map Val (filter (\<lambda>r. Rel r = key) metadata)"
  by (induction metadata arbitrary: vals) simp_all

lemma Vals_eq: "Vals key h = map Val (filter (\<lambda>r. Rel r = key) (Metadata h))"
  by (simp add: Vals_def Vals_loop_eq)

lemma Rels_loop_eq:
  "i + length metadata \<le> length rels \<Longrightarrow>
   Rels_loop metadata i rels = take i rels @ map Rel metadata @ drop (i + length metadata) rels"
proof (induction metadata arbitrary: i rels)
  case Nil
  then show ?case by simp
next
  case (Cons rel rest)
  then have "Rels_loop (rel # rest) i rels =
      take (Suc i) (rels[i := Rel rel]) @ map Rel rest @ drop (Suc i + length rest) (rels[i := Rel rel])"
    by simp
  also have "take (Suc i) (rels[i := Rel rel]) = take i rels @ [Rel rel]"
    using Cons.prems by (simp add: take_Suc_conv_app_nth)
  also have "drop (Suc i + length rest) (rels[i := Rel rel]) = drop (i + length (rel # rest)) rels"
    by simp
  finally show ?case by simp
qed

lemma Rels_eq: "Rels h = map Rel (Metadata h)"
  by (simp add: Rels_def Rels_loop_eq)

lemma filter_absent_key: "k \<notin> Rel ` set m \<Longrightarrow> filter (\<lambda>r. Rel r = k) m = []"
  by (induction m) auto

lemma filter_other_keys: "k \<notin> Rel ` set m \<Longrightarrow> filter (\<lambda>r. Rel r \<noteq> k) m = m"
  by (induction m) auto

lemma Vals_after_replace:
  "map Val (filter (\<lambda>r. Rel r = k)
     (map (\<lambda>r. if Rel r = k then \<lparr>Rel = k, Val = v\<rparr> else r) m)) =
   replicate (length (filter (\<lambda>r. Rel r = k) m)) v"
  by (induction m) simp_all

subsection \<open>The item sequence\<close>

lemma AddItem_loop_eq:
  "AddItem_loop item items =
     (if Href item \<in> Href ` set items then Some (DuplicateHref (Href item)) else None)"
  by (induction items) auto

lemma AddItem_eq:
  "AddItem item h =
     (if Href item \<in> Href ` set (Items h) then (h, Some (DuplicateHref (Href item)))
      else (h\<lparr>Items := Items h @ [item]\<rparr>, None))"
  by (simp add: AddItem_def AddItem_loop_eq)

lemma first_match_less:
  "k \<in> f ` set xs \<Longrightarrow> length (takeWhile (\<lambda>x. f x \<noteq> k) xs) < length xs"
  by (induction xs) auto

lemma first_match_nth:
  "k \<in> f ` set xs \<Longrightarrow> f (xs ! length (takeWhile (\<lambda>x. f x \<noteq> k) xs)) = k"
  by (induction xs) auto

lemma before_first_match:
  "j < length (takeWhile (\<lambda>x. f x \<noteq> k) xs) \<Longrightarrow> f (xs ! j) \<noteq> k"
  by (induction xs arbitrary: j) (auto simp: nth_Cons split: if_splits nat.splits)

lemma ReplaceItem_from_found:
  "index \<le> length (takeWhile (\<lambda>i. Href i \<noteq> Href newItem) (Items h)) \<Longrightarrow>
   Href newItem \<in> Href ` set (Items h) \<Longrightarrow>
   ReplaceItem_from index newItem h =
     (h\<lparr>Items := (Items h)[length (takeWhile (\<lambda>i. Href i \<noteq> Href newItem) (Items h)) := newItem]\<rparr>,
      None)"
proof (induction index newItem h rule: ReplaceItem_from.induct)
  case (1 index newItem h)
  let ?n = "length (takeWhile (\<lambda>i. Href i \<noteq> Href newItem) (Items h))"
  have n_lt: "?n < length (Items h)"
    using "1.prems"(2) by (rule first_match_less)
  then have lt: "index < length (Items h)"
    using "1.prems"(1) by simp
  show ?case
  proof (cases "Href newItem = Href (Items h ! index)")
    case True
    have "\<not> index < ?n"
      using True before_first_match [of index Href "Href newItem" "Items h"] by auto
    then have "index = ?n" using "1.prems"(1) by simp
    then show ?thesis
      using lt True by (subst ReplaceItem_from.simps) simp
  next
    case False
    have "index \<noteq> ?n"
      using False first_match_nth [OF "1.prems"(2)] by auto
    then have "Suc index \<le> ?n" using "1.prems"(1) by simp
    from "1.IH" [OF lt False this "1.prems"(2)] show ?thesis
      using lt False by (subst ReplaceItem_from.simps) simp
  qed
qed

lemma ReplaceItem_from_missing:
  "\<forall>j. index \<le> j \<and> j < length (Items h) \<longrightarrow> Href (Items h ! j) \<noteq> Href newItem \<Longrightarrow>
   ReplaceItem_from index newItem h = (h, Some (ItemNotFound (Href newItem)))"
proof (induction index newItem h rule: ReplaceItem_from.induct)
  case (1 index newItem h)
  show ?case
  proof (cases "index < length (Items h)")
    case False
    then show ?thesis by (subst ReplaceItem_from.simps) simp
  next
    case True
    then have ne: "Href newItem \<noteq> Href (Items h ! index)"
      using "1.prems" by (metis order_refl)
    have "ReplaceItem_from (Suc index) newItem h = (h, Some (ItemNotFound (Href newItem)))"
      using "1.IH" [OF True ne] "1.prems" by simp
    then show ?thesis
      using True ne by (subst ReplaceItem_from.simps) simp
  qed
qed

lemma ReplaceItem_found:
  assumes "Href newItem \<in> Href ` set (Items h)"
  shows "ReplaceItem newItem h =
     (h\<lparr>Items := (Items h)[length (takeWhile (\<lambda>i. Href i \<noteq> Href newItem) (Items h)) := newItem]\<rparr>,
      None)"
  unfolding ReplaceItem_def using assms by (intro ReplaceItem_from_found) simp_all

lemma ReplaceItem_missing:
  assumes "Href newItem \<notin> Href ` set (Items h)"
  shows "ReplaceItem newItem h = (h, Some (ItemNotFound (Href newItem)))"
  unfolding ReplaceItem_def using assms
  by (intro ReplaceItem_from_missing) (metis image_eqI nth_mem)

lemma ReplaceItem_cases:
  "fst (ReplaceItem newItem h) = h \<or>
   (\<exists>n. fst (ReplaceItem newItem h) = h\<lparr>Items := (Items h)[n := newItem]\<rparr>)"
proof (cases "Href newItem \<in> Href ` set (Items h)")
  case True
  then show ?thesis by (simp add: ReplaceItem_found) blast
next
  case False
  then show ?thesis by (simp add: ReplaceItem_missing)
qed

subsection \<open>Decoding\<close>

lemma UnmarshalJSON_loop_eq:
  "UnmarshalJSON_loop rels h =
     h\<lparr>Metadata := Metadata h @ filter (\<lambda>r. Rel r \<noteq> DescriptionRel) rels,
       Description := last (Description h # map Val (filter (\<lambda>r. Rel r = DescriptionRel) rels))\<rparr>"
  by (induction rels arbitrary: h) simp_all

lemma Item_UnmarshalJSON_loop_Description:
  "Item.Description (Item_UnmarshalJSON_loop rels item) =
     last (Item.Description item # map Val (filter (\<lambda>r. Rel r = DescriptionRel) rels))"
  by (induction rels arbitrary: item) simp_all

lemma Item_UnmarshalJSON_error:
  "Item_UnmarshalJSON w item = (item', Some err) \<Longrightarrow> err = MissingDescription"
  by (auto simp: Item_UnmarshalJSON_def Let_def split: if_splits)

lemma decode_items_error:
  "decode_items ws = Inl err \<Longrightarrow> err = MissingDescription"
proof (induction ws)
  case Nil
  then show ?case by simp
next
  case (Cons w ws)
  then show ?case
    by (auto split: prod.splits option.splits sum.splits dest: Item_UnmarshalJSON_error)
qed

lemma Item_decodes_encoded:
  "Item.Description item \<noteq> [] \<Longrightarrow>
   \<exists>item'. Item_UnmarshalJSON (Item_MarshalJSON item) z = (item', None)"
  by (simp add: Item_UnmarshalJSON_def Item_MarshalJSON_def Let_def
      Item_UnmarshalJSON_loop_Description json_Marshal_Rel_def
      json_string_DescriptionRel json_string_Nil_iff)

lemma decode_items_encoded:
  "\<forall>item \<in> set items. Item.Description item \<noteq> [] \<Longrightarrow>
   \<exists>items'. decode_items (map Item_MarshalJSON items) = Inr items'"
proof (induction items)
  case Nil
  then show ?case by simp
next
  case (Cons item items)
  then obtain items' where "decode_items (map Item_MarshalJSON items) = Inr items'"
    by auto
  moreover obtain item' where
    "Item_UnmarshalJSON (Item_MarshalJSON item)
       \<lparr>Href = [], Item.Metadata = [], Item.Description = []\<rparr> = (item', None)"
    using Item_decodes_encoded Cons.prems by (meson list.set_intros(1))
  ultimately show ?case by simp
qed

lemma UnmarshalJSON_Document:
  "decode_items (wire_items w) = Inr items \<Longrightarrow>
   UnmarshalJSON (Document w) h =
     (let h' = UnmarshalJSON_loop (wire_metadata w) h
      in if Description h' = [] then (h', Some MissingDescription) else (h', None))"
  by (simp add: UnmarshalJSON_def json_Unmarshal_def)

lemma UnmarshalJSON_items_error:
  "decode_items (wire_items w) = Inl err \<Longrightarrow>
   UnmarshalJSON (Document w) h = (h, Some MissingDescription)"
  by (frule decode_items_error) (simp add: UnmarshalJSON_def json_Unmarshal_def)

lemma UnmarshalJSON_missing:
  assumes "last (Description h # map Val (filter (\<lambda>r. Rel r = DescriptionRel) (wire_metadata w))) = []"
    and "Description h = []"
  shows "snd (UnmarshalJSON (Document w) h) = Some MissingDescription"
proof (cases "decode_items (wire_items w)")
  case (Inl err)
  then show ?thesis
    by (simp add: UnmarshalJSON_items_error)
next
  case (Inr items)
  then show ?thesis
    using assms by (simp add: UnmarshalJSON_Document [OF Inr] Let_def UnmarshalJSON_loop_eq)
qed

lemma Parse_Document_ok:
  assumes "decode_items (wire_items w) = Inr items"
    and "last ([] # map Val (filter (\<lambda>r. Rel r = DescriptionRel) (wire_metadata w))) \<noteq> []"
  shows "Parse (Document w) =
     (Some \<lparr>Items = [],
            Metadata = filter (\<lambda>r. Rel r \<noteq> DescriptionRel) (wire_metadata w),
            Description = last ([] # map Val (filter (\<lambda>r. Rel r = DescriptionRel) (wire_metadata w)))\<rparr>,
      None)"
  using assms
  by (simp add: Parse_def UnmarshalJSON_Document [OF assms(1)] Let_def UnmarshalJSON_loop_eq)

lemma Parse_Document_missing:
  assumes "last ([] # map Val (filter (\<lambda>r. Rel r = DescriptionRel) (wire_metadata w))) = []"
  shows "Parse (Document w) = (None, Some MissingDescription)"
proof -
  have "snd (UnmarshalJSON (Document w) \<lparr>Items = [], Metadata = [], Description = []\<rparr>) =
      Some MissingDescription"
    using assms by (intro UnmarshalJSON_missing) simp_all
  then show ?thesis
    by (auto simp: Parse_def split: prod.splits)
qed

lemma Parse_error_no_catalogue: "snd (Parse b) \<noteq> None \<Longrightarrow> fst (Parse b) = None"
  by (auto simp: Parse_def split: prod.splits option.splits)

text \<open>
  Whatever the document, the catalogue that \<^verbatim>\<open>Parse\<close> returns has no items: the decoded
  items stay in the temporary struct.
\<close>

lemma Parse_drops_items: "Parse b = (Some h, None) \<Longrightarrow> Items h = []"
  by (auto simp: Parse_def UnmarshalJSON_def Let_def UnmarshalJSON_loop_eq
      split: prod.splits option.splits sum.splits if_splits)

lemma Parse_MarshalJSON_drops_items:
  "fst (Parse (fst (MarshalJSON (apply_operations
      [OpAddItem \<lparr>Href = ''/a'', Item.Metadata = [], Item.Description = ''A''\<rparr>]
      (NewHyperCat ''d''))))) =
   Some \<lparr>Items = [], Metadata = [], Description = ''d''\<rparr>"
  by (simp add: Parse_def UnmarshalJSON_def json_Unmarshal_def MarshalJSON_def Let_def
      AddItem_eq NewHyperCat_def Item_MarshalJSON_def Item_UnmarshalJSON_def
      json_Marshal_Rel_def json_string_DescriptionRel json_string_Nil_iff
      json_string_valid valid_utf8_ascii byte_def)

subsection \<open>The store along a sequence of operations\<close>

lemma UnmarshalJSON_store:
  "store_without_description h \<Longrightarrow> store_without_description (fst (UnmarshalJSON b h))"
proof (cases "json_Unmarshal b")
  case (Inl err)
  assume "store_without_description h"
  with Inl show ?thesis by (simp add: UnmarshalJSON_def)
next
  case (Inr t)
  assume "store_without_description h"
  with Inr show ?thesis
    by (auto simp: UnmarshalJSON_def Let_def UnmarshalJSON_loop_eq
        store_without_description_def Rels_eq)
qed

lemma apply_operation_store:
  "\<not> adds_description_key c \<Longrightarrow> store_without_description h \<Longrightarrow>
   store_without_description (apply_operation c h)"
proof (cases c)
  case (OpAddRel rel val)
  assume "\<not> adds_description_key c" "store_without_description h"
  with OpAddRel show ?thesis
    by (simp add: store_without_description_def Rels_eq AddRel_def)
next
  case (OpReplaceRel rel val)
  assume "store_without_description h"
  with OpReplaceRel show ?thesis
    by (simp add: store_without_description_def Rels_eq ReplaceRel_keys)
next
  case (OpAddItem item)
  assume "store_without_description h"
  with OpAddItem show ?thesis
    by (simp add: store_without_description_def Rels_eq AddItem_eq)
next
  case (OpReplaceItem newItem)
  assume "store_without_description h"
  with OpReplaceItem ReplaceItem_cases [of newItem h] show ?thesis
    by (auto simp: store_without_description_def Rels_eq)
next
  case (OpDecode b)
  assume "store_without_description h"
  with OpDecode show ?thesis by (simp add: UnmarshalJSON_store)
qed

lemma apply_operations_store:
  "\<not> list_ex adds_description_key cs \<Longrightarrow> store_without_description h \<Longrightarrow>
   store_without_description (apply_operations cs h)"
  by (induction cs arbitrary: h) (simp_all add: apply_operation_store)

lemma NewHyperCat_store: "store_without_description (NewHyperCat d)"
  by (simp add: store_without_description_def Rels_eq NewHyperCat_def)

lemma Parse_store:
  assumes "Parse b = (Some h, None)"
  shows "store_without_description h"
proof -
  let ?z = "\<lparr>Items = [], Metadata = [], Description = []\<rparr>"
  have "store_without_description ?z"
    by (simp add: store_without_description_def Rels_eq)
  then have "store_without_description (fst (UnmarshalJSON b ?z))"
    by (rule UnmarshalJSON_store)
  moreover have "fst (UnmarshalJSON b ?z) = h"
    using assms by (auto simp: Parse_def split: prod.splits option.splits)
  ultimately show ?thesis by simp
qed

lemma apply_operation_description:
  "builder_operation c \<Longrightarrow> Description (apply_operation c h) = Description h"
proof (cases c)
  case (OpReplaceItem newItem)
  with ReplaceItem_cases [of newItem h] show ?thesis by auto
qed (simp_all add: AddRel_def ReplaceRel_def AddItem_eq)

lemma apply_operation_items:
  assumes "builder_operation c" and "\<forall>item \<in> set (Items h). Item.Description item \<noteq> []"
  shows "\<forall>item \<in> set (Items (apply_operation c h)). Item.Description item \<noteq> []"
proof (cases c)
  case (OpAddRel rel val)
  with assms show ?thesis by (simp add: AddRel_def)
next
  case (OpReplaceRel rel val)
  with assms show ?thesis by (simp add: ReplaceRel_def)
next
  case (OpAddItem item)
  with assms show ?thesis by (simp add: AddItem_eq)
next
  case (OpReplaceItem newItem)
  with assms have new: "Item.Description newItem \<noteq> []" by simp
  have "\<And>n. \<forall>item \<in> set ((Items h)[n := newItem]). Item.Description item \<noteq> []"
    using new assms(2) set_update_subset_insert [of "Items h" _ newItem] by blast
  with OpReplaceItem assms(2) ReplaceItem_cases [of newItem h] show ?thesis by auto
next
  case (OpDecode b)
  with assms show ?thesis by simp
qed

lemma apply_operations_builder:
  "list_all builder_operation cs \<Longrightarrow>
   \<forall>item \<in> set (Items h). Item.Description item \<noteq> [] \<Longrightarrow>
   Description (apply_operations cs h) = Description h
   \<and> (\<forall>item \<in> set (Items (apply_operations cs h)). Item.Description item \<noteq> [])"
proof (induction cs arbitrary: h)
  case Nil
  then show ?case by simp
next
  case (Cons c cs)
  then have c: "builder_operation c" and cs: "list_all builder_operation cs"
    by simp_all
  from Cons.IH [OF cs apply_operation_items [OF c Cons.prems(2)]]
  show ?case by (simp add: apply_operation_description [OF c])
qed

lemma Parse_MarshalJSON:
  assumes d: "Description h \<noteq> []"
    and s: "store_without_description h"
    and i: "\<forall>item \<in> set (Items h). Item.Description item \<noteq> []"
    and vd: "valid_utf8 (Description h)"
    and vm: "\<forall>r \<in> set (Metadata h). valid_utf8_Rel r"
  shows "Parse (fst (MarshalJSON h)) =
     (Some \<lparr>Items = [], Metadata = Metadata h, Description = Description h\<rparr>, None)"
proof -
  let ?w = "\<lparr>wire_items = map Item_MarshalJSON (Items h),
             wire_metadata = Metadata h @ [\<lparr>Rel = DescriptionRel, Val = Description h\<rparr>]\<rparr>"
  have "valid_utf8_Rel \<lparr>Rel = DescriptionRel, Val = Description h\<rparr>"
    using vd by (simp add: valid_utf8_Rel_def valid_utf8_DescriptionRel)
  with vm have "map json_Marshal_Rel (Metadata h @ [\<lparr>Rel = DescriptionRel, Val = Description h\<rparr>]) =
      Metadata h @ [\<lparr>Rel = DescriptionRel, Val = Description h\<rparr>]"
    by (intro json_Marshal_Metadata_valid) simp
  then have enc: "fst (MarshalJSON h) = Document ?w"
    using d by (simp add: MarshalJSON_def Let_def)
  obtain items where items: "decode_items (wire_items ?w) = Inr items"
    using decode_items_encoded [OF i] by auto
  have absent: "DescriptionRel \<notin> Rel ` set (Metadata h)"
    using s by (simp add: store_without_description_def Rels_eq)
  then have no: "filter (\<lambda>r. Rel r = DescriptionRel) (Metadata h) = []"
    by (rule filter_absent_key)
  have all: "filter (\<lambda>r. Rel r \<noteq> DescriptionRel) (Metadata h) = Metadata h"
    using absent by (rule filter_other_keys)
  have "last ([] # map Val (filter (\<lambda>r. Rel r = DescriptionRel) (wire_metadata ?w))) = Description h"
    by (simp add: no)
  moreover have "filter (\<lambda>r. Rel r \<noteq> DescriptionRel) (wire_metadata ?w) = Metadata h"
    by (simp add: all)
  ultimately show ?thesis
    unfolding enc using Parse_Document_ok [OF items] d by simp
qed

section \<open>The claims\<close>

subsection \<open>C1: decoding an encoded catalogue\<close>

text \<open>
  C1 as stated fails, in two ways. A catalogue built with a non-empty description and one
  \<^verbatim>\<open>AddRel\<close> whose key is the reserved description key is encoded and decoded without
  error, and the decoded store is empty while the original store holds the entry: the
  decoder takes every entry under that key for a description. And a catalogue built with
  one \<^verbatim>\<open>AddRel\<close> whose value is the byte FF, which is not valid UTF-8, comes back with
  the bytes EF BF BD as that value: the library writes U+FFFD for the byte.
\<close>

theorem roundtrip_changes_relations:
  "''d'' \<noteq> []
   \<and> list_all builder_operation [OpAddRel DescriptionRel ''x'']
   \<and> fst (Parse (fst (MarshalJSON
        (apply_operations [OpAddRel DescriptionRel ''x''] (NewHyperCat ''d''))))) =
      Some \<lparr>Items = [], Metadata = [], Description = ''d''\<rparr>
   \<and> Metadata (apply_operations [OpAddRel DescriptionRel ''x''] (NewHyperCat ''d'')) \<noteq>
      Metadata \<lparr>Items = [], Metadata = [], Description = ''d''\<rparr>
   \<and> list_all builder_operation [OpAddRel ''k'' [CHR 0xFF]]
   \<and> fst (Parse (fst (MarshalJSON
        (apply_operations [OpAddRel ''k'' [CHR 0xFF]] (NewHyperCat ''d''))))) =
      Some \<lparr>Items = [],
            Metadata = [\<lparr>Rel = ''k'', Val = [CHR 0xEF, CHR 0xBF, CHR 0xBD]\<rparr>],
            Description = ''d''\<rparr>
   \<and> Metadata (apply_operations [OpAddRel ''k'' [CHR 0xFF]] (NewHyperCat ''d'')) \<noteq>
      Metadata \<lparr>Items = [],
                Metadata = [\<lparr>Rel = ''k'', Val = [CHR 0xEF, CHR 0xBF, CHR 0xBD]\<rparr>],
                Description = ''d''\<rparr>"
proof -
  have ascii: "json_string ''d'' = ''d''" "json_string ''x'' = ''x''" "json_string ''k'' = ''k''"
    by (simp_all add: json_string_valid valid_utf8_ascii byte_def)
  have ff: "json_string [CHR 0xFF] = [CHR 0xEF, CHR 0xBF, CHR 0xBD]"
    by (simp add: json_string.simps byte_def)
  have k: "''k'' \<noteq> DescriptionRel"
    by (simp add: DescriptionRel_def)
  show ?thesis
    using k
    by (simp add: Parse_def UnmarshalJSON_def json_Unmarshal_def MarshalJSON_def Let_def
        AddRel_def NewHyperCat_def json_Marshal_Rel_def json_string_DescriptionRel ascii ff)
qed

text \<open>
  C1, amended: for every catalogue constructed with a non-empty description and then
  mutated only by \<^verbatim>\<open>AddRel\<close>, \<^verbatim>\<open>ReplaceRel\<close>, \<^verbatim>\<open>AddItem\<close> and \<^verbatim>\<open>ReplaceItem\<close>, every item
  having a non-empty description and no \<^verbatim>\<open>AddRel\<close> using the reserved description key,
  whose description and whose store keys and values are valid UTF-8, \<^verbatim>\<open>Parse\<close> of the
  encoding succeeds and yields a catalogue with the same description and the same
  relation sequence, in order and content.
\<close>

theorem roundtrip_description_and_relations:
  "d \<noteq> [] \<Longrightarrow> list_all builder_operation cs \<Longrightarrow> \<not> list_ex adds_description_key cs \<Longrightarrow>
   h = apply_operations cs (NewHyperCat d) \<Longrightarrow>
   valid_utf8 (Description h) \<Longrightarrow> \<forall>r \<in> set (Metadata h). valid_utf8_Rel r \<Longrightarrow>
   \<exists>h'. Parse (fst (MarshalJSON h)) = (Some h', None)
     \<and> Description h' = Description h
     \<and> Metadata h' = Metadata h"
proof -
  assume d: "d \<noteq> []" and cs: "list_all builder_operation cs"
    and no: "\<not> list_ex adds_description_key cs"
    and h: "h = apply_operations cs (NewHyperCat d)"
    and vd: "valid_utf8 (Description h)"
    and vm: "\<forall>r \<in> set (Metadata h). valid_utf8_Rel r"
  have "\<forall>item \<in> set (Items (NewHyperCat d)). Item.Description item \<noteq> []"
    by (simp add: NewHyperCat_def)
  from apply_operations_builder [OF cs this]
  have desc: "Description h \<noteq> []"
    and items: "\<forall>item \<in> set (Items h). Item.Description item \<noteq> []"
    using d h by (simp_all add: NewHyperCat_def)
  have "store_without_description h"
    unfolding h using no NewHyperCat_store by (rule apply_operations_store)
  from Parse_MarshalJSON [OF desc this items vd vm] show ?thesis by simp
qed

theorem roundtrip_description_and_relations_witness:
  "''d'' \<noteq> []
   \<and> list_all builder_operation
       [OpAddRel ''k'' ''v'', OpAddRel ''k'' [CHR 0xC3, CHR 0xA9], OpReplaceRel ''j'' ''u'',
        OpAddItem \<lparr>Href = ''/a'', Item.Metadata = [], Item.Description = ''A''\<rparr>]
   \<and> \<not> list_ex adds_description_key
       [OpAddRel ''k'' ''v'', OpAddRel ''k'' [CHR 0xC3, CHR 0xA9], OpReplaceRel ''j'' ''u'',
        OpAddItem \<lparr>Href = ''/a'', Item.Metadata = [], Item.Description = ''A''\<rparr>]
   \<and> valid_utf8 ''d''
   \<and> valid_utf8_Rel \<lparr>Rel = ''k'', Val = ''v''\<rparr>
   \<and> valid_utf8_Rel \<lparr>Rel = ''k'', Val = [CHR 0xC3, CHR 0xA9]\<rparr>
   \<and> (\<exists>h'. Parse (fst (MarshalJSON (apply_operations
       [OpAddRel ''k'' ''v'', OpAddRel ''k'' [CHR 0xC3, CHR 0xA9], OpReplaceRel ''j'' ''u'',
        OpAddItem \<lparr>Href = ''/a'', Item.Metadata = [], Item.Description = ''A''\<rparr>]
       (NewHyperCat ''d'')))) = (Some h', None)
     \<and> Description h' = ''d''
     \<and> Metadata h' = [\<lparr>Rel = ''k'', Val = ''v''\<rparr>, \<lparr>Rel = ''k'', Val = [CHR 0xC3, CHR 0xA9]\<rparr>])"
proof -
  let ?cs = "[OpAddRel ''k'' ''v'', OpAddRel ''k'' [CHR 0xC3, CHR 0xA9], OpReplaceRel ''j'' ''u'',
        OpAddItem \<lparr>Href = ''/a'', Item.Metadata = [], Item.Description = ''A''\<rparr>]"
  have a: "''d'' \<noteq> []" by simp
  have b: "list_all builder_operation ?cs" by simp
  have c: "\<not> list_ex adds_description_key ?cs" by (simp add: DescriptionRel_def)
  have m: "Metadata (apply_operations ?cs (NewHyperCat ''d'')) =
      [\<lparr>Rel = ''k'', Val = ''v''\<rparr>, \<lparr>Rel = ''k'', Val = [CHR 0xC3, CHR 0xA9]\<rparr>]"
    by (simp add: AddRel_def ReplaceRel_Metadata AddItem_eq NewHyperCat_def)
  have e: "Description (apply_operations ?cs (NewHyperCat ''d'')) = ''d''"
    by (simp add: AddRel_def ReplaceRel_def AddItem_eq NewHyperCat_def)
  have vd: "valid_utf8 ''d''"
    by (simp add: valid_utf8_ascii byte_def)
  have v1: "valid_utf8_Rel \<lparr>Rel = ''k'', Val = ''v''\<rparr>"
    by (simp add: valid_utf8_Rel_def valid_utf8.simps byte_def)
  have v2: "valid_utf8_Rel \<lparr>Rel = ''k'', Val = [CHR 0xC3, CHR 0xA9]\<rparr>"
    by (simp add: valid_utf8_Rel_def valid_utf8.simps byte_def accept_def)
  have vd': "valid_utf8 (Description (apply_operations ?cs (NewHyperCat ''d'')))"
    unfolding e by (rule vd)
  have vm': "\<forall>r \<in> set (Metadata (apply_operations ?cs (NewHyperCat ''d''))). valid_utf8_Rel r"
    unfolding m using v1 v2 by simp
  show ?thesis
    using a b c vd v1 v2 roundtrip_description_and_relations [OF a b c refl vd' vm']
    unfolding m e by blast
qed

subsection \<open>C2: a document without a description\<close>

text \<open>
  C2: for every document whose top-level metadata array has no entry under the reserved
  description key, \<^verbatim>\<open>Parse\<close> fails with the MissingDescription error, and so does
  \<^verbatim>\<open>UnmarshalJSON\<close> on a receiver whose description is empty, as the zero catalogue of
  \<^verbatim>\<open>Parse\<close> is; and whenever \<^verbatim>\<open>Parse\<close> returns an error, whatever the text, it returns
  no catalogue.
\<close>

theorem Parse_fails_without_description:
  "(DescriptionRel \<notin> Rel ` set (wire_metadata w) \<longrightarrow>
      Parse (Document w) = (None, Some MissingDescription))
   \<and> (DescriptionRel \<notin> Rel ` set (wire_metadata w) \<and> Description h = [] \<longrightarrow>
      snd (UnmarshalJSON (Document w) h) = Some MissingDescription)
   \<and> (snd (Parse b) \<noteq> None \<longrightarrow> fst (Parse b) = None)"
proof (intro conjI impI)
  assume "DescriptionRel \<notin> Rel ` set (wire_metadata w)"
  then have "filter (\<lambda>r. Rel r = DescriptionRel) (wire_metadata w) = []"
    by (rule filter_absent_key)
  then show "Parse (Document w) = (None, Some MissingDescription)"
    by (intro Parse_Document_missing) simp
next
  assume "DescriptionRel \<notin> Rel ` set (wire_metadata w) \<and> Description h = []"
  then have "filter (\<lambda>r. Rel r = DescriptionRel) (wire_metadata w) = []"
    and "Description h = []"
    by (simp_all add: filter_absent_key)
  then show "snd (UnmarshalJSON (Document w) h) = Some MissingDescription"
    by (intro UnmarshalJSON_missing) simp_all
next
  assume "snd (Parse b) \<noteq> None"
  then show "fst (Parse b) = None" by (rule Parse_error_no_catalogue)
qed

theorem Parse_fails_without_description_witness:
  "DescriptionRel \<notin> Rel ` set (wire_metadata
       \<lparr>wire_items = [\<lparr>wire_href = ''/a'',
                       wire_item_metadata = [\<lparr>Rel = DescriptionRel, Val = ''A''\<rparr>]\<rparr>],
        wire_metadata = [\<lparr>Rel = ''k'', Val = ''v''\<rparr>]\<rparr>)
   \<and> Description \<lparr>Items = [], Metadata = [], Description = []\<rparr> = []
   \<and> Parse (Document
       \<lparr>wire_items = [\<lparr>wire_href = ''/a'',
                       wire_item_metadata = [\<lparr>Rel = DescriptionRel, Val = ''A''\<rparr>]\<rparr>],
        wire_metadata = [\<lparr>Rel = ''k'', Val = ''v''\<rparr>]\<rparr>) = (None, Some MissingDescription)
   \<and> snd (UnmarshalJSON (Document
       \<lparr>wire_items = [\<lparr>wire_href = ''/a'',
                       wire_item_metadata = [\<lparr>Rel = DescriptionRel, Val = ''A''\<rparr>]\<rparr>],
        wire_metadata = [\<lparr>Rel = ''k'', Val = ''v''\<rparr>]\<rparr>)
       \<lparr>Items = [], Metadata = [], Description = []\<rparr>) = Some MissingDescription
   \<and> snd (Parse Malformed) \<noteq> None \<and> fst (Parse Malformed) = None"
proof -
  let ?w = "\<lparr>wire_items = [\<lparr>wire_href = ''/a'',
                       wire_item_metadata = [\<lparr>Rel = DescriptionRel, Val = ''A''\<rparr>]\<rparr>],
        wire_metadata = [\<lparr>Rel = ''k'', Val = ''v''\<rparr>]\<rparr>"
  let ?z = "\<lparr>Items = [], Metadata = [], Description = []\<rparr>"
  have a: "DescriptionRel \<notin> Rel ` set (wire_metadata ?w)"
    by (simp add: DescriptionRel_def)
  have b: "snd (Parse Malformed) \<noteq> None"
    by (simp add: Parse_def UnmarshalJSON_def json_Unmarshal_def)
  have c: "Description ?z = []" by simp
  show ?thesis
    using a b c Parse_fails_without_description [of ?w ?z Malformed] by blast
qed

subsection \<open>C3: the store and the description key\<close>

text \<open>
  C3 as stated fails: \<^verbatim>\<open>AddRel\<close> appends whatever key it is given, the reserved
  description key as well, and the store then holds an entry under that key.
\<close>

theorem AddRel_puts_description_key_in_store:
  "DescriptionRel \<in>
     set (Rels (apply_operations [OpAddRel DescriptionRel ''x''] (NewHyperCat ''d'')))"
  by (simp add: Rels_eq AddRel_def)

text \<open>
  C3, amended: for every catalogue that comes from \<^verbatim>\<open>NewHyperCat\<close> or from a successful
  \<^verbatim>\<open>Parse\<close>, and every sequence of \<^verbatim>\<open>AddRel\<close>, \<^verbatim>\<open>ReplaceRel\<close>, \<^verbatim>\<open>AddItem\<close>,
  \<^verbatim>\<open>ReplaceItem\<close> and decode operations in which no \<^verbatim>\<open>AddRel\<close> is given the reserved
  description key, the store never holds an entry under that key.
\<close>

theorem store_never_holds_description:
  "\<not> list_ex adds_description_key cs \<Longrightarrow>
   origin = NewHyperCat d \<or> Parse b = (Some origin, None) \<Longrightarrow>
   DescriptionRel \<notin> set (Rels (apply_operations cs origin))"
proof -
  assume cs: "\<not> list_ex adds_description_key cs"
    and origin: "origin = NewHyperCat d \<or> Parse b = (Some origin, None)"
  from origin have "store_without_description origin"
    using NewHyperCat_store Parse_store by blast
  with cs have "store_without_description (apply_operations cs origin)"
    by (rule apply_operations_store)
  then show ?thesis by (simp add: store_without_description_def)
qed

theorem store_never_holds_description_witness:
  "\<not> list_ex adds_description_key
       [OpAddRel ''k'' ''v'', OpReplaceRel ''k'' ''w'',
        OpAddItem \<lparr>Href = ''/a'', Item.Metadata = [], Item.Description = ''A''\<rparr>,
        OpDecode (Document \<lparr>wire_items = [],
          wire_metadata = [\<lparr>Rel = DescriptionRel, Val = ''e''\<rparr>, \<lparr>Rel = ''j'', Val = ''u''\<rparr>]\<rparr>)]
   \<and> DescriptionRel \<notin> set (Rels (apply_operations
       [OpAddRel ''k'' ''v'', OpReplaceRel ''k'' ''w'',
        OpAddItem \<lparr>Href = ''/a'', Item.Metadata = [], Item.Description = ''A''\<rparr>,
        OpDecode (Document \<lparr>wire_items = [],
          wire_metadata = [\<lparr>Rel = DescriptionRel, Val = ''e''\<rparr>, \<lparr>Rel = ''j'', Val = ''u''\<rparr>]\<rparr>)]
       (NewHyperCat ''d'')))
   \<and> Parse (Document \<lparr>wire_items = [],
          wire_metadata = [\<lparr>Rel = DescriptionRel, Val = ''e''\<rparr>, \<lparr>Rel = ''j'', Val = ''u''\<rparr>]\<rparr>) =
       (Some \<lparr>Items = [], Metadata = [\<lparr>Rel = ''j'', Val = ''u''\<rparr>], Description = ''e''\<rparr>, None)
   \<and> DescriptionRel \<notin> set (Rels (apply_operations [OpAddRel ''k'' ''v'']
       \<lparr>Items = [], Metadata = [\<lparr>Rel = ''j'', Val = ''u''\<rparr>], Description = ''e''\<rparr>))"
proof -
  let ?doc = "Document \<lparr>wire_items = [],
          wire_metadata = [\<lparr>Rel = DescriptionRel, Val = ''e''\<rparr>, \<lparr>Rel = ''j'', Val = ''u''\<rparr>]\<rparr>"
  let ?cs = "[OpAddRel ''k'' ''v'', OpReplaceRel ''k'' ''w'',
        OpAddItem \<lparr>Href = ''/a'', Item.Metadata = [], Item.Description = ''A''\<rparr>,
        OpDecode ?doc]"
  let ?p = "\<lparr>Items = [], Metadata = [\<lparr>Rel = ''j'', Val = ''u''\<rparr>], Description = ''e''\<rparr>"
  have a: "\<not> list_ex adds_description_key ?cs"
    by (simp add: DescriptionRel_def)
  have b: "NewHyperCat ''d'' = NewHyperCat ''d'' \<or> Parse Malformed = (Some (NewHyperCat ''d''), None)"
    by simp
  have j: "''j'' \<noteq> DescriptionRel"
    by (simp add: DescriptionRel_def)
  have p: "Parse ?doc = (Some ?p, None)"
    using j by (simp add: Parse_def UnmarshalJSON_def json_Unmarshal_def Let_def)
  have a': "\<not> list_ex adds_description_key [OpAddRel ''k'' ''v'']"
    by (simp add: DescriptionRel_def)
  have b': "?p = NewHyperCat ''d'' \<or> Parse ?doc = (Some ?p, None)"
    using p by simp
  show ?thesis
    using a p store_never_holds_description [OF a b] store_never_holds_description [OF a' b']
    by blast
qed

subsection \<open>C4: the encoded metadata array\<close>

text \<open>
  C4 as stated fails: the strings of the array are written by the JSON library, which
  writes U+FFFD for every byte that is not part of a valid UTF-8 encoding. A catalogue
  with the description \<^verbatim>\<open>a\<close> followed by the byte C3 is encoded with the description
  \<^verbatim>\<open>a\<close> followed by EF BF BD, and a store value FF under an empty description is encoded
  as EF BF BD, so the array is not the store verbatim.
\<close>

theorem MarshalJSON_rewrites_invalid_utf8:
  "MarshalJSON (NewHyperCat [CHR ''a'', CHR 0xC3]) =
     (Document \<lparr>wire_items = [],
        wire_metadata = [\<lparr>Rel = DescriptionRel, Val = [CHR ''a'', CHR 0xEF, CHR 0xBF, CHR 0xBD]\<rparr>]\<rparr>,
      None)
   \<and> [\<lparr>Rel = DescriptionRel, Val = [CHR ''a'', CHR 0xEF, CHR 0xBF, CHR 0xBD]\<rparr>] \<noteq>
      Metadata (NewHyperCat [CHR ''a'', CHR 0xC3]) @
        [\<lparr>Rel = DescriptionRel, Val = Description (NewHyperCat [CHR ''a'', CHR 0xC3])\<rparr>]
   \<and> MarshalJSON (AddRel ''k'' [CHR 0xFF] (NewHyperCat [])) =
     (Document \<lparr>wire_items = [],
        wire_metadata = [\<lparr>Rel = ''k'', Val = [CHR 0xEF, CHR 0xBF, CHR 0xBD]\<rparr>]\<rparr>,
      None)
   \<and> [\<lparr>Rel = ''k'', Val = [CHR 0xEF, CHR 0xBF, CHR 0xBD]\<rparr>] \<noteq>
      Metadata (AddRel ''k'' [CHR 0xFF] (NewHyperCat []))"
proof -
  have k: "json_string ''k'' = ''k''"
    by (simp add: json_string_valid valid_utf8_ascii byte_def)
  have ac3: "json_string [CHR ''a'', CHR 0xC3] = [CHR ''a'', CHR 0xEF, CHR 0xBF, CHR 0xBD]"
    by (simp add: json_string.simps byte_def accept_def)
  have ff: "json_string [CHR 0xFF] = [CHR 0xEF, CHR 0xBF, CHR 0xBD]"
    by (simp add: json_string.simps byte_def)
  show ?thesis
    by (simp add: MarshalJSON_def Let_def AddRel_def NewHyperCat_def json_Marshal_Rel_def
        json_string_DescriptionRel k ac3 ff)
qed

text \<open>
  C4, amended: \<^verbatim>\<open>MarshalJSON\<close> never fails, and the metadata array it writes is the store
  in its stored order, each key and value as the JSON library writes a string (valid
  UTF-8 unchanged, every other byte replaced by U+FFFD), followed by exactly one relation
  of the reserved description key and the description so written when the description is
  non-empty; when the description is empty no description relation is written. For a
  catalogue whose store keys, store values and description are valid UTF-8 the array is
  the store verbatim, followed by the relation of the reserved description key and the
  description when the description is non-empty.
\<close>

theorem MarshalJSON_appends_description:
  "\<exists>w. MarshalJSON h = (Document w, None)
     \<and> wire_items w = map Item_MarshalJSON (Items h)
     \<and> (Description h \<noteq> [] \<longrightarrow>
          wire_metadata w = map json_Marshal_Rel (Metadata h) @
            [\<lparr>Rel = DescriptionRel, Val = json_string (Description h)\<rparr>])
     \<and> (Description h = [] \<longrightarrow> wire_metadata w = map json_Marshal_Rel (Metadata h))
     \<and> (\<forall>r \<in> set (Metadata h). valid_utf8_Rel r \<longrightarrow> json_Marshal_Rel r = r)
     \<and> ((\<forall>r \<in> set (Metadata h). valid_utf8_Rel r) \<and> valid_utf8 (Description h) \<longrightarrow>
          (Description h \<noteq> [] \<longrightarrow>
             wire_metadata w = Metadata h @ [\<lparr>Rel = DescriptionRel, Val = Description h\<rparr>])
          \<and> (Description h = [] \<longrightarrow> wire_metadata w = Metadata h))"
proof -
  let ?w = "\<lparr>wire_items = map Item_MarshalJSON (Items h),
             wire_metadata = map json_Marshal_Rel
               (if Description h \<noteq> []
                then Metadata h @ [\<lparr>Rel = DescriptionRel, Val = Description h\<rparr>]
                else Metadata h)\<rparr>"
  have enc: "MarshalJSON h = (Document ?w, None)"
    by (simp add: MarshalJSON_def Let_def)
  have written: "json_Marshal_Rel \<lparr>Rel = DescriptionRel, Val = Description h\<rparr> =
      \<lparr>Rel = DescriptionRel, Val = json_string (Description h)\<rparr>"
    by (simp add: json_Marshal_Rel_def json_string_DescriptionRel)
  have valid: "map json_Marshal_Rel (Metadata h) = Metadata h
      \<and> json_string (Description h) = Description h"
    if "(\<forall>r \<in> set (Metadata h). valid_utf8_Rel r) \<and> valid_utf8 (Description h)"
    using that by (simp add: json_Marshal_Metadata_valid json_string_valid)
  show ?thesis
    unfolding enc using written valid by (auto simp: json_Marshal_Rel_valid)
qed

theorem MarshalJSON_appends_description_witness:
  "valid_utf8_Rel \<lparr>Rel = ''k'', Val = [CHR 0xC3, CHR 0xA9]\<rparr>
   \<and> valid_utf8 ''d'' \<and> valid_utf8 []
   \<and> MarshalJSON \<lparr>Items = [], Metadata = [\<lparr>Rel = ''k'', Val = [CHR 0xC3, CHR 0xA9]\<rparr>],
                  Description = ''d''\<rparr>
     = (Document \<lparr>wire_items = [],
          wire_metadata = [\<lparr>Rel = ''k'', Val = [CHR 0xC3, CHR 0xA9]\<rparr>,
                           \<lparr>Rel = DescriptionRel, Val = ''d''\<rparr>]\<rparr>, None)
   \<and> MarshalJSON \<lparr>Items = [], Metadata = [\<lparr>Rel = ''k'', Val = [CHR 0xC3, CHR 0xA9]\<rparr>],
                  Description = []\<rparr>
     = (Document \<lparr>wire_items = [],
          wire_metadata = [\<lparr>Rel = ''k'', Val = [CHR 0xC3, CHR 0xA9]\<rparr>]\<rparr>, None)"
proof -
  let ?m = "[\<lparr>Rel = ''k'', Val = [CHR 0xC3, CHR 0xA9]\<rparr>]"
  have vm: "valid_utf8_Rel \<lparr>Rel = ''k'', Val = [CHR 0xC3, CHR 0xA9]\<rparr>"
    by (simp add: valid_utf8_Rel_def valid_utf8.simps byte_def accept_def)
  have vd: "valid_utf8 ''d''" "valid_utf8 []"
    by (simp_all add: valid_utf8.simps byte_def)
  show ?thesis
    using vm vd
      MarshalJSON_appends_description [of "\<lparr>Items = [], Metadata = ?m, Description = ''d''\<rparr>"]
      MarshalJSON_appends_description [of "\<lparr>Items = [], Metadata = ?m, Description = []\<rparr>"]
    by auto
qed

subsection \<open>C5: the scan of the metadata array\<close>

text \<open>
  C5: when \<^verbatim>\<open>UnmarshalJSON\<close> scans the metadata array of a document, every entry under
  the reserved description key is taken as the description, the value of the last such
  entry being the one that stays, and is kept out of the store; every other entry is
  appended to the store in the order of the array.
\<close>

theorem UnmarshalJSON_splits_description:
  "decode_items (wire_items w) = Inr items \<Longrightarrow>
   Metadata (fst (UnmarshalJSON (Document w) h)) =
     Metadata h @ filter (\<lambda>r. Rel r \<noteq> DescriptionRel) (wire_metadata w)
   \<and> Description (fst (UnmarshalJSON (Document w) h)) =
     last (Description h # map Val (filter (\<lambda>r. Rel r = DescriptionRel) (wire_metadata w)))"
  by (simp add: UnmarshalJSON_Document Let_def UnmarshalJSON_loop_eq)

theorem UnmarshalJSON_splits_description_witness:
  "decode_items (wire_items \<lparr>wire_items = [], wire_metadata =
       [\<lparr>Rel = DescriptionRel, Val = ''one''\<rparr>, \<lparr>Rel = ''k'', Val = ''v''\<rparr>,
        \<lparr>Rel = DescriptionRel, Val = ''two''\<rparr>, \<lparr>Rel = ''j'', Val = ''w''\<rparr>]\<rparr>) = Inr []
   \<and> Metadata (fst (UnmarshalJSON (Document \<lparr>wire_items = [], wire_metadata =
       [\<lparr>Rel = DescriptionRel, Val = ''one''\<rparr>, \<lparr>Rel = ''k'', Val = ''v''\<rparr>,
        \<lparr>Rel = DescriptionRel, Val = ''two''\<rparr>, \<lparr>Rel = ''j'', Val = ''w''\<rparr>]\<rparr>)
       \<lparr>Items = [], Metadata = [], Description = []\<rparr>))
     = [\<lparr>Rel = ''k'', Val = ''v''\<rparr>, \<lparr>Rel = ''j'', Val = ''w''\<rparr>]
   \<and> Description (fst (UnmarshalJSON (Document \<lparr>wire_items = [], wire_metadata =
       [\<lparr>Rel = DescriptionRel, Val = ''one''\<rparr>, \<lparr>Rel = ''k'', Val = ''v''\<rparr>,
        \<lparr>Rel = DescriptionRel, Val = ''two''\<rparr>, \<lparr>Rel = ''j'', Val = ''w''\<rparr>]\<rparr>)
       \<lparr>Items = [], Metadata = [], Description = []\<rparr>))
     = ''two''"
proof -
  let ?w = "\<lparr>wire_items = [], wire_metadata =
       [\<lparr>Rel = DescriptionRel, Val = ''one''\<rparr>, \<lparr>Rel = ''k'', Val = ''v''\<rparr>,
        \<lparr>Rel = DescriptionRel, Val = ''two''\<rparr>, \<lparr>Rel = ''j'', Val = ''w''\<rparr>]\<rparr>"
  have d: "decode_items (wire_items ?w) = Inr []" by simp
  have k: "''k'' \<noteq> DescriptionRel" "''j'' \<noteq> DescriptionRel"
    by (simp_all add: DescriptionRel_def)
  show ?thesis
    using d k UnmarshalJSON_splits_description
      [OF d, of "\<lparr>Items = [], Metadata = [], Description = []\<rparr>"]
    by simp
qed

subsection \<open>C6: adding an item\<close>

text \<open>
  C6: \<^verbatim>\<open>AddItem\<close> with an item whose href is the href of an item of the catalogue
  returns the DuplicateHref error and leaves the whole catalogue as it was; with an item
  whose href no item of the catalogue has, it returns no error and appends the item at
  the end of the item sequence, the earlier items and their order kept.
\<close>

theorem AddItem_rejects_duplicate_href:
  "(Href item \<in> Href ` set (Items h) \<longrightarrow>
      AddItem item h = (h, Some (DuplicateHref (Href item))))
   \<and> (Href item \<notin> Href ` set (Items h) \<longrightarrow>
      AddItem item h = (h\<lparr>Items := Items h @ [item]\<rparr>, None))"
  by (simp add: AddItem_eq)

theorem AddItem_rejects_duplicate_href_witness:
  "AddItem \<lparr>Href = ''/a'', Item.Metadata = [], Item.Description = ''A2''\<rparr>
     \<lparr>Items = [\<lparr>Href = ''/a'', Item.Metadata = [], Item.Description = ''A''\<rparr>],
      Metadata = [], Description = ''d''\<rparr>
   = (\<lparr>Items = [\<lparr>Href = ''/a'', Item.Metadata = [], Item.Description = ''A''\<rparr>],
       Metadata = [], Description = ''d''\<rparr>, Some (DuplicateHref ''/a''))
   \<and> AddItem \<lparr>Href = ''/b'', Item.Metadata = [], Item.Description = ''B''\<rparr>
     \<lparr>Items = [\<lparr>Href = ''/a'', Item.Metadata = [], Item.Description = ''A''\<rparr>],
      Metadata = [], Description = ''d''\<rparr>
   = (\<lparr>Items = [\<lparr>Href = ''/a'', Item.Metadata = [], Item.Description = ''A''\<rparr>,
                \<lparr>Href = ''/b'', Item.Metadata = [], Item.Description = ''B''\<rparr>],
       Metadata = [], Description = ''d''\<rparr>, None)"
  using AddItem_rejects_duplicate_href
    [of "\<lparr>Href = ''/a'', Item.Metadata = [], Item.Description = ''A2''\<rparr>"
        "\<lparr>Items = [\<lparr>Href = ''/a'', Item.Metadata = [], Item.Description = ''A''\<rparr>],
          Metadata = [], Description = ''d''\<rparr>"]
    AddItem_rejects_duplicate_href
    [of "\<lparr>Href = ''/b'', Item.Metadata = [], Item.Description = ''B''\<rparr>"
        "\<lparr>Items = [\<lparr>Href = ''/a'', Item.Metadata = [], Item.Description = ''A''\<rparr>],
          Metadata = [], Description = ''d''\<rparr>"]
  by simp

subsection \<open>C7: replacing an item\<close>

text \<open>
  C7: \<^verbatim>\<open>ReplaceItem\<close> with an item whose href is the href of an item of the catalogue
  overwrites the first such item, at its index, leaves every other item and the rest of
  the catalogue as they were, and returns no error; when no item has that href it returns
  the ItemNotFound error and leaves the catalogue as it was.
\<close>

theorem ReplaceItem_overwrites_first_match:
  "(Href newItem \<in> Href ` set (Items h) \<longrightarrow>
      (\<exists>n. n < length (Items h)
         \<and> Href (Items h ! n) = Href newItem
         \<and> (\<forall>j. j < n \<longrightarrow> Href (Items h ! j) \<noteq> Href newItem)
         \<and> ReplaceItem newItem h = (h\<lparr>Items := (Items h)[n := newItem]\<rparr>, None)))
   \<and> (Href newItem \<notin> Href ` set (Items h) \<longrightarrow>
      ReplaceItem newItem h = (h, Some (ItemNotFound (Href newItem))))"
proof (intro conjI impI)
  assume found: "Href newItem \<in> Href ` set (Items h)"
  let ?n = "length (takeWhile (\<lambda>i. Href i \<noteq> Href newItem) (Items h))"
  have "?n < length (Items h)"
    using found by (rule first_match_less)
  moreover have "Href (Items h ! ?n) = Href newItem"
    using found by (rule first_match_nth)
  moreover have "\<forall>j. j < ?n \<longrightarrow> Href (Items h ! j) \<noteq> Href newItem"
    using before_first_match [of _ Href "Href newItem" "Items h"] by blast
  moreover have "ReplaceItem newItem h = (h\<lparr>Items := (Items h)[?n := newItem]\<rparr>, None)"
    using found by (rule ReplaceItem_found)
  ultimately show "\<exists>n. n < length (Items h)
         \<and> Href (Items h ! n) = Href newItem
         \<and> (\<forall>j. j < n \<longrightarrow> Href (Items h ! j) \<noteq> Href newItem)
         \<and> ReplaceItem newItem h = (h\<lparr>Items := (Items h)[n := newItem]\<rparr>, None)"
    by blast
next
  assume "Href newItem \<notin> Href ` set (Items h)"
  then show "ReplaceItem newItem h = (h, Some (ItemNotFound (Href newItem)))"
    by (rule ReplaceItem_missing)
qed

theorem ReplaceItem_overwrites_first_match_witness:
  "ReplaceItem \<lparr>Href = ''/a'', Item.Metadata = [], Item.Description = ''new''\<rparr>
     \<lparr>Items = [\<lparr>Href = ''/b'', Item.Metadata = [], Item.Description = ''B''\<rparr>,
               \<lparr>Href = ''/a'', Item.Metadata = [], Item.Description = ''A1''\<rparr>,
               \<lparr>Href = ''/a'', Item.Metadata = [], Item.Description = ''A2''\<rparr>],
      Metadata = [], Description = ''d''\<rparr>
   = (\<lparr>Items = [\<lparr>Href = ''/b'', Item.Metadata = [], Item.Description = ''B''\<rparr>,
                \<lparr>Href = ''/a'', Item.Metadata = [], Item.Description = ''new''\<rparr>,
                \<lparr>Href = ''/a'', Item.Metadata = [], Item.Description = ''A2''\<rparr>],
       Metadata = [], Description = ''d''\<rparr>, None)
   \<and> ReplaceItem \<lparr>Href = ''/z'', Item.Metadata = [], Item.Description = ''new''\<rparr>
     \<lparr>Items = [\<lparr>Href = ''/b'', Item.Metadata = [], Item.Description = ''B''\<rparr>],
      Metadata = [], Description = ''d''\<rparr>
   = (\<lparr>Items = [\<lparr>Href = ''/b'', Item.Metadata = [], Item.Description = ''B''\<rparr>],
       Metadata = [], Description = ''d''\<rparr>, Some (ItemNotFound ''/z''))"
proof -
  let ?new = "\<lparr>Href = ''/a'', Item.Metadata = [], Item.Description = ''new''\<rparr>"
  let ?h = "\<lparr>Items = [\<lparr>Href = ''/b'', Item.Metadata = [], Item.Description = ''B''\<rparr>,
               \<lparr>Href = ''/a'', Item.Metadata = [], Item.Description = ''A1''\<rparr>,
               \<lparr>Href = ''/a'', Item.Metadata = [], Item.Description = ''A2''\<rparr>],
      Metadata = [], Description = ''d''\<rparr>"
  have "Href ?new \<in> Href ` set (Items ?h)" by simp
  with ReplaceItem_overwrites_first_match [of ?new ?h]
  obtain n where n: "n < length (Items ?h)" "Href (Items ?h ! n) = Href ?new"
      "\<forall>j. j < n \<longrightarrow> Href (Items ?h ! j) \<noteq> Href ?new"
      "ReplaceItem ?new ?h = (?h\<lparr>Items := (Items ?h)[n := ?new]\<rparr>, None)"
    by blast
  have "n \<noteq> 0"
  proof
    assume "n = 0"
    with n(2) show False by simp
  qed
  moreover have "n \<noteq> 2"
  proof
    assume "n = 2"
    then have "(1::nat) < n" by simp
    with n(3) have "Href (Items ?h ! 1) \<noteq> Href ?new" by blast
    then show False by simp
  qed
  moreover have "n < 3" using n(1) by simp
  ultimately have "n = 1" by arith
  then have first: "ReplaceItem ?new ?h = (?h\<lparr>Items := (Items ?h)[1 := ?new]\<rparr>, None)"
    using n(4) by simp
  show ?thesis
    using first
      ReplaceItem_overwrites_first_match
        [of "\<lparr>Href = ''/z'', Item.Metadata = [], Item.Description = ''new''\<rparr>"
            "\<lparr>Items = [\<lparr>Href = ''/b'', Item.Metadata = [], Item.Description = ''B''\<rparr>],
              Metadata = [], Description = ''d''\<rparr>"]
    by simp
qed

subsection \<open>C8: replacing a relation\<close>

text \<open>
  C8: \<^verbatim>\<open>ReplaceRel\<close> overwrites the value of every store entry whose key is the given
  one, not only the first, and leaves the other entries, the sequence of keys, the length
  of the store, the items and the description as they were; when no entry has the key
  the catalogue is unchanged, and no error can be returned. After \<^verbatim>\<open>AddRel(k, v1)\<close>,
  \<^verbatim>\<open>AddRel(k, v2)\<close> and \<^verbatim>\<open>ReplaceRel(k, v3)\<close> on a new catalogue \<^verbatim>\<open>Vals(k)\<close> is
  \<^verbatim>\<open>[v3, v3]\<close>; on any catalogue it is \<^verbatim>\<open>v3\<close> once for each entry the store had under
  \<^verbatim>\<open>k\<close>, and then \<^verbatim>\<open>[v3, v3]\<close>.
\<close>

theorem ReplaceRel_overwrites_every_match:
  "Metadata (ReplaceRel rel val h) =
     map (\<lambda>r. if Rel r = rel then \<lparr>Rel = rel, Val = val\<rparr> else r) (Metadata h)
   \<and> Rels (ReplaceRel rel val h) = Rels h
   \<and> length (Metadata (ReplaceRel rel val h)) = length (Metadata h)
   \<and> Items (ReplaceRel rel val h) = Items h
   \<and> Description (ReplaceRel rel val h) = Description h
   \<and> (rel \<notin> set (Rels h) \<longrightarrow> ReplaceRel rel val h = h)
   \<and> Vals k (ReplaceRel k v3 (AddRel k v2 (AddRel k v1 (NewHyperCat d)))) = [v3, v3]
   \<and> Vals k (ReplaceRel k v3 (AddRel k v2 (AddRel k v1 h))) =
       replicate (length (Vals k h)) v3 @ [v3, v3]"
proof -
  have same: "rel \<notin> set (Rels h) \<Longrightarrow> ReplaceRel rel val h = h"
  proof -
    assume "rel \<notin> set (Rels h)"
    then have "map (\<lambda>r. if Rel r = rel then \<lparr>Rel = rel, Val = val\<rparr> else r) (Metadata h) = Metadata h"
      by (intro map_idI) (auto simp: Rels_eq)
    then show ?thesis
      by (simp add: ReplaceRel_def ReplaceRel_from_eq)
  qed
  have keys: "Rels (ReplaceRel rel val h) = Rels h"
    by (simp add: Rels_eq ReplaceRel_keys)
  have general: "Vals k (ReplaceRel k v3 (AddRel k v2 (AddRel k v1 g))) =
      replicate (length (Vals k g)) v3 @ [v3, v3]" for g
    by (simp add: Vals_eq ReplaceRel_Metadata AddRel_def Vals_after_replace)
  have example: "Vals k (ReplaceRel k v3 (AddRel k v2 (AddRel k v1 (NewHyperCat d)))) = [v3, v3]"
    unfolding general by (simp add: Vals_eq NewHyperCat_def)
  have fields: "Items (ReplaceRel rel val h) = Items h"
    "Description (ReplaceRel rel val h) = Description h"
    by (simp_all add: ReplaceRel_def)
  show ?thesis
    using same keys example general [of h] fields by (simp add: ReplaceRel_Metadata)
qed

theorem ReplaceRel_overwrites_every_match_witness:
  "''z'' \<notin> set (Rels (AddRel ''k'' ''1'' (NewHyperCat ''d'')))
   \<and> ReplaceRel ''z'' ''9'' (AddRel ''k'' ''1'' (NewHyperCat ''d'')) =
       AddRel ''k'' ''1'' (NewHyperCat ''d'')
   \<and> Metadata (ReplaceRel ''k'' ''9''
       (AddRel ''k'' ''2'' (AddRel ''j'' ''x'' (AddRel ''k'' ''1'' (NewHyperCat ''d''))))) =
       [\<lparr>Rel = ''k'', Val = ''9''\<rparr>, \<lparr>Rel = ''j'', Val = ''x''\<rparr>, \<lparr>Rel = ''k'', Val = ''9''\<rparr>]"
  using ReplaceRel_overwrites_every_match
    [of "''z''" "''9''" "AddRel ''k'' ''1'' (NewHyperCat ''d'')"]
    ReplaceRel_overwrites_every_match
    [of "''k''" "''9''" "AddRel ''k'' ''2'' (AddRel ''j'' ''x'' (AddRel ''k'' ''1'' (NewHyperCat ''d'')))"]
  by (simp add: Rels_eq AddRel_def NewHyperCat_def)

subsection \<open>C9: adding a relation and reading values\<close>

text \<open>
  C9: \<^verbatim>\<open>AddRel\<close> appends one entry to the store whatever the store holds, changes
  nothing else and has no error to return, so a key may occur more than once: on a new
  catalogue, \<^verbatim>\<open>AddRel(k, v1)\<close> and \<^verbatim>\<open>AddRel(k, v2)\<close> make \<^verbatim>\<open>Vals(k)\<close> return
  \<^verbatim>\<open>[v1, v2]\<close>. On every catalogue \<^verbatim>\<open>Vals\<close> returns the values of all entries with the
  key, in store order, and the empty sequence when no entry has the key.
\<close>

theorem AddRel_appends_and_Vals_collects:
  "Metadata (AddRel rel val h) = Metadata h @ [\<lparr>Rel = rel, Val = val\<rparr>]
   \<and> Items (AddRel rel val h) = Items h
   \<and> Description (AddRel rel val h) = Description h
   \<and> Vals k (AddRel k v2 (AddRel k v1 (NewHyperCat d))) = [v1, v2]
   \<and> Vals key h = map Val (filter (\<lambda>r. Rel r = key) (Metadata h))
   \<and> (key \<notin> set (Rels h) \<longrightarrow> Vals key h = [])"
proof -
  have "key \<notin> set (Rels h) \<Longrightarrow> filter (\<lambda>r. Rel r = key) (Metadata h) = []"
    by (auto simp: Rels_eq filter_empty_conv)
  then show ?thesis
    by (simp add: Vals_eq AddRel_def NewHyperCat_def)
qed

theorem AddRel_appends_and_Vals_collects_witness:
  "Vals ''k'' (AddRel ''k'' ''2'' (AddRel ''j'' ''x'' (AddRel ''k'' ''1'' (NewHyperCat ''d'')))) =
     [''1'', ''2'']
   \<and> ''z'' \<notin> set (Rels (AddRel ''k'' ''1'' (NewHyperCat ''d'')))
   \<and> Vals ''z'' (AddRel ''k'' ''1'' (NewHyperCat ''d'')) = []"
  using AddRel_appends_and_Vals_collects
    [of "''k''" "''1''" "AddRel ''k'' ''1'' (NewHyperCat ''d'')"
        "''k''" "''2''" "''1''" "''d''" "''z''"]
    AddRel_appends_and_Vals_collects
    [of "''k''" "''2''"
        "AddRel ''k'' ''2'' (AddRel ''j'' ''x'' (AddRel ''k'' ''1'' (NewHyperCat ''d'')))"
        "''k''" "''2''" "''1''" "''d''" "''k''"]
  by (simp add: Rels_eq AddRel_def NewHyperCat_def)

subsection \<open>C10: an empty description on the wire\<close>

text \<open>
  C10: for every document whose metadata array has entries under the reserved description
  key, the last of them with the empty string as its value, \<^verbatim>\<open>Parse\<close> fails with the
  MissingDescription error, which is also what it returns for the same document with the
  description entries taken out.
\<close>

theorem Parse_fails_on_empty_description:
  "filter (\<lambda>r. Rel r = DescriptionRel) (wire_metadata w) \<noteq> [] \<Longrightarrow>
   Val (last (filter (\<lambda>r. Rel r = DescriptionRel) (wire_metadata w))) = [] \<Longrightarrow>
   Parse (Document w) = (None, Some MissingDescription)
   \<and> Parse (Document w) =
       Parse (Document (w\<lparr>wire_metadata := filter (\<lambda>r. Rel r \<noteq> DescriptionRel) (wire_metadata w)\<rparr>))"
proof -
  assume ne: "filter (\<lambda>r. Rel r = DescriptionRel) (wire_metadata w) \<noteq> []"
    and empty: "Val (last (filter (\<lambda>r. Rel r = DescriptionRel) (wire_metadata w))) = []"
  have "Parse (Document w) = (None, Some MissingDescription)"
    using ne empty by (intro Parse_Document_missing) (simp add: last_map)
  moreover have
    "Parse (Document (w\<lparr>wire_metadata := filter (\<lambda>r. Rel r \<noteq> DescriptionRel) (wire_metadata w)\<rparr>))
      = (None, Some MissingDescription)"
    by (intro Parse_Document_missing) simp
  ultimately show ?thesis by simp
qed

theorem Parse_fails_on_empty_description_witness:
  "filter (\<lambda>r. Rel r = DescriptionRel)
     (wire_metadata \<lparr>wire_items = [], wire_metadata =
        [\<lparr>Rel = DescriptionRel, Val = ''d''\<rparr>, \<lparr>Rel = ''k'', Val = ''v''\<rparr>,
         \<lparr>Rel = DescriptionRel, Val = []\<rparr>]\<rparr>) \<noteq> []
   \<and> Val (last (filter (\<lambda>r. Rel r = DescriptionRel)
     (wire_metadata \<lparr>wire_items = [], wire_metadata =
        [\<lparr>Rel = DescriptionRel, Val = ''d''\<rparr>, \<lparr>Rel = ''k'', Val = ''v''\<rparr>,
         \<lparr>Rel = DescriptionRel, Val = []\<rparr>]\<rparr>))) = []
   \<and> Parse (Document \<lparr>wire_items = [], wire_metadata =
        [\<lparr>Rel = DescriptionRel, Val = ''d''\<rparr>, \<lparr>Rel = ''k'', Val = ''v''\<rparr>,
         \<lparr>Rel = DescriptionRel, Val = []\<rparr>]\<rparr>)
       = (None, Some MissingDescription)"
proof -
  let ?w = "\<lparr>wire_items = [], wire_metadata =
        [\<lparr>Rel = DescriptionRel, Val = ''d''\<rparr>, \<lparr>Rel = ''k'', Val = ''v''\<rparr>,
         \<lparr>Rel = DescriptionRel, Val = []\<rparr>]\<rparr>"
  have a: "filter (\<lambda>r. Rel r = DescriptionRel) (wire_metadata ?w) \<noteq> []" by simp
  have b: "Val (last (filter (\<lambda>r. Rel r = DescriptionRel) (wire_metadata ?w))) = []" by simp
  show ?thesis
    using a b Parse_fails_on_empty_description [OF a b] by blast
qed

end
